theory Spec2Isabelle
  imports Main
begin

section \<open>Errors and Python helpers\<close>

text \<open>
  The generator script is Python.  Every way the script can stop is a value of
  \<open>error\<close>: \<open>Exception msg\<close> is the script's own \<^verbatim>\<open>raise Exception(msg)\<close>
  (the unsupported-type error), \<open>AssertionError\<close> is a failed \<^verbatim>\<open>assert\<close>,
  \<open>AttributeError\<close> is an attribute read on a node (or on \<^verbatim>\<open>None\<close>) that has no
  such attribute, and \<open>IndexError\<close> is a list read out of range.
\<close>

datatype error = Exception string | AssertionError | AttributeError | IndexError

text \<open>\<^verbatim>\<open>s.startswith(p)\<close>\<close>

definition startswith :: "string \<Rightarrow> string \<Rightarrow> bool" where
  "startswith s p = (take (length p) s = p)"

text \<open>\<^verbatim>\<open>sep.join(xs)\<close>\<close>

fun join :: "string \<Rightarrow> string list \<Rightarrow> string" where
  "join sep [] = []"
| "join sep [x] = x"
| "join sep (x # y # ys) = x @ sep @ join sep (y # ys)"

text \<open>
  A Python \<^verbatim>\<open>dict\<close> keeps insertion order; storing under a key that is already
  present replaces the value and keeps the key's position.
\<close>

fun dict_set :: "'k \<Rightarrow> 'v \<Rightarrow> ('k \<times> 'v) list \<Rightarrow> ('k \<times> 'v) list" where
  "dict_set k v [] = [(k, v)]"
| "dict_set k v (p # ps) = (if fst p = k then (k, v) # ps else p # dict_set k v ps)"

section \<open>The pycparser syntax tree\<close>

text \<open>
  Expressions, as far as the script looks at them: only a \<open>Constant\<close> node has a
  \<^verbatim>\<open>value\<close> attribute (the literal's text).
\<close>

datatype expr =
    Constant string string
  | ID string
  | UnaryOp string expr
  | BinaryOp string expr expr

text \<open>\<^verbatim>\<open>e.value\<close>, where \<open>None\<close> is Python's \<^verbatim>\<open>None\<close>.\<close>

fun attr_value :: "expr option \<Rightarrow> error + string" where
  "attr_value (Some (Constant ty v)) = Inr v"
| "attr_value _ = Inl AttributeError"

fun is_Constant :: "expr option \<Rightarrow> bool" where
  "is_Constant (Some (Constant ty v)) = True"
| "is_Constant _ = False"

text \<open>
  Declaration and type nodes.  Python is dynamically typed, so all node classes
  live in one type and \<^verbatim>\<open>isinstance\<close> is a case distinction.  Fields, in
  pycparser's order and leaving out those the script never reads:
  \<^item> \<open>PtrDecl quals type\<close>
  \<^item> \<open>TypeDecl declname quals type\<close>
  \<^item> \<open>ArrayDecl type dim\<close>
  \<^item> \<open>FuncDecl args type\<close>, \<open>args\<close> being \<^verbatim>\<open>None\<close> or a \<^verbatim>\<open>ParamList\<close>, given by its \<^verbatim>\<open>params\<close>
  \<^item> \<open>IdentifierType names\<close>
  \<^item> \<open>Struct name decls\<close>, \<open>Union name decls\<close>
  \<^item> \<open>Enum name values\<close>, \<open>values\<close> being \<^verbatim>\<open>None\<close> or an \<^verbatim>\<open>EnumeratorList\<close>,
    given by the (name, value) pairs of its enumerators
  \<^item> \<open>Decl name type\<close>, \<open>Typename name type\<close>, \<open>Typedef name type\<close>
  \<^item> \<open>EllipsisParam\<close>
  \<^item> \<open>FileAST ext\<close>, the root
  Expression subtrees (array dimensions, enumerator values) are \<open>expr\<close> values and
  hold no declaration nodes.
\<close>

datatype node =
    PtrDecl "string list" node
  | TypeDecl "string option" "string list" node
  | ArrayDecl node "expr option"
  | FuncDecl "node list option" node
  | IdentifierType "string list"
  | Struct "string option" "node list option"
  | Union "string option" "node list option"
  | Enum "string option" "(string \<times> expr option) list option"
  | Decl "string option" node
  | Typename "string option" node
  | Typedef string node
  | EllipsisParam
  | FileAST "node list"

text \<open>\<^verbatim>\<open>node.type\<close>\<close>

fun attr_type :: "node \<Rightarrow> error + node" where
  "attr_type (PtrDecl q t) = Inr t"
| "attr_type (TypeDecl d q t) = Inr t"
| "attr_type (ArrayDecl t dim) = Inr t"
| "attr_type (FuncDecl args t) = Inr t"
| "attr_type (Decl n t) = Inr t"
| "attr_type (Typename n t) = Inr t"
| "attr_type (Typedef n t) = Inr t"
| "attr_type _ = Inl AttributeError"

text \<open>\<^verbatim>\<open>node.name\<close>\<close>

fun attr_name :: "node \<Rightarrow> error + string option" where
  "attr_name (Struct n ds) = Inr n"
| "attr_name (Union n ds) = Inr n"
| "attr_name (Enum n vs) = Inr n"
| "attr_name (Decl n t) = Inr n"
| "attr_name (Typename n t) = Inr n"
| "attr_name (Typedef n t) = Inr (Some n)"
| "attr_name _ = Inl AttributeError"

text \<open>\<^verbatim>\<open>node.args.params\<close>\<close>

fun attr_args_params :: "node \<Rightarrow> error + node list" where
  "attr_args_params (FuncDecl (Some ps) t) = Inr ps"
| "attr_args_params _ = Inl AttributeError"

section \<open>Name Resolver\<close>

text \<open>
  \<^verbatim>\<open>c_type_name(name)\<close>.  The argument is what \<^verbatim>\<open>_typedecl_name\<close> returned, which
  is \<^verbatim>\<open>None\<close> for an anonymous struct or enum; \<^verbatim>\<open>None.startswith\<close> is an
  attribute error.
\<close>

fun c_type_name :: "string option \<Rightarrow> error + string" where
  "c_type_name None = Inl AttributeError"
| "c_type_name (Some name) =
     (if startswith name ''rascal_'' then
        (if name = ''rascal_indexes_kind'' then Inr ''ctypes.c_int'' else Inr name)
      else if startswith name ''eqs_'' then Inr name
      else if name = ''uintptr_t'' then Inr ''c_uintptr_t''
      else if name = ''void'' then Inr ''None''
      else if name = ''int32_t'' then Inr ''ctypes.c_int32''
      else if name = ''uint32_t'' then Inr ''ctypes.c_uint32''
      else if name = ''int64_t'' then Inr ''ctypes.c_int64''
      else if name = ''uint64_t'' then Inr ''ctypes.c_uint64''
      else Inr (''ctypes.c_'' @ name))"

section \<open>Type Translator\<close>

text \<open>
  \<^verbatim>\<open>_typedecl_name(type)\<close>: the assertion on the node class, the name of a struct
  or enum (possibly \<^verbatim>\<open>None\<close>), otherwise \<^verbatim>\<open>type.type.names\<close>, which only an
  \<open>IdentifierType\<close> has, asserted to hold one name.
\<close>

fun typedecl_name :: "node \<Rightarrow> error + string option" where
  "typedecl_name (TypeDecl d q (Struct n ds)) = Inr n"
| "typedecl_name (TypeDecl d q (Enum n vs)) = Inr n"
| "typedecl_name (TypeDecl d q (IdentifierType names)) =
     (if length names = 1 then Inr (Some (hd names)) else Inl AssertionError)"
| "typedecl_name (TypeDecl d q t) = Inl AttributeError"
| "typedecl_name _ = Inl AssertionError"

text \<open>
  The descriptors the translator produces are pieces of ctypes source text.
\<close>

definition StringPointer :: string where
  "StringPointer = ''ctypes.c_char_p''"

definition StringPointerArray :: string where
  "StringPointerArray = ''POINTER(ctypes.c_char_p)''"

definition Opaque :: string where
  "Opaque = ''ctypes.c_void_p''"

definition Pointer :: "string \<Rightarrow> string" where
  "Pointer t = ''POINTER('' @ t @ '')''"

definition ArrayBufferPointer :: "string \<Rightarrow> string" where
  "ArrayBufferPointer elem = ''POINTER(ndpointer('' @ elem @ '', flags='' @ [CHR 0x27] @ ''C_CONTIGUOUS'' @ [CHR 0x27] @ ''))''"

definition FixedArray :: "string \<Rightarrow> string \<Rightarrow> string" where
  "FixedArray elem dim_value = elem @ '' * '' @ dim_value"

definition Callback :: "string \<Rightarrow> string list \<Rightarrow> string" where
  "Callback ret params = ''CFUNCTYPE('' @ ret @ '', '' @ join '', '' params @ '')''"

lemma attr_type_size: "attr_type n = Inr t \<Longrightarrow> size t < size n"
  by (cases n) auto

lemma attr_args_params_size: "attr_args_params n = Inr ps \<Longrightarrow> size_list size ps < size n"
  by (cases n rule: attr_args_params.cases) auto

function type_to_ctypes :: "node \<Rightarrow> bool \<Rightarrow> error + string"
  and funcdecl_to_ctypes :: "node \<Rightarrow> bool \<Rightarrow> error + string"
  and params_to_ctypes :: "node list \<Rightarrow> bool \<Rightarrow> error + string list"
where
  "type_to_ctypes type ndpointer =
     (case type of
        PtrDecl q type1 \<Rightarrow>
          (case type1 of
             PtrDecl q1 type2 \<Rightarrow>
               (case type2 of
                  TypeDecl d2 q2 t2 \<Rightarrow>
                    (case typedecl_name type2 of
                       Inl e \<Rightarrow> Inl e
                     | Inr name \<Rightarrow>
                         if name = Some ''char'' then Inr StringPointerArray
                         else (case c_type_name name of
                                 Inl e \<Rightarrow> Inl e
                               | Inr name' \<Rightarrow>
                                   if ndpointer then Inr (ArrayBufferPointer name')
                                   else Inr (Pointer (Pointer name'))))
                | _ \<Rightarrow> Inl (Exception ''Unknown type''))
           | TypeDecl d1 q1 t1 \<Rightarrow>
               (case typedecl_name type1 of
                  Inl e \<Rightarrow> Inl e
                | Inr name \<Rightarrow>
                    if name = Some ''void'' then Inr Opaque
                    else if name = Some ''char'' then Inr StringPointer
                    else (case c_type_name name of
                            Inl e \<Rightarrow> Inl e
                          | Inr name' \<Rightarrow> Inr (Pointer name')))
           | FuncDecl args1 t1 \<Rightarrow> funcdecl_to_ctypes type1 ndpointer
           | _ \<Rightarrow> Inl (Exception ''Unknown type''))
      | TypeDecl d q t \<Rightarrow>
          (case typedecl_name type of
             Inl e \<Rightarrow> Inl e
           | Inr name \<Rightarrow> c_type_name name)
      | IdentifierType names \<Rightarrow>
          (case names of
             [] \<Rightarrow> Inl IndexError
           | n # ns \<Rightarrow> c_type_name (Some n))
      | ArrayDecl elem dim \<Rightarrow>
          (if is_Constant dim then
             (case attr_value dim of
                Inl e \<Rightarrow> Inl e
              | Inr dim_value \<Rightarrow>
                  (case type_to_ctypes elem False of
                     Inl e \<Rightarrow> Inl e
                   | Inr s \<Rightarrow> Inr (FixedArray s dim_value)))
           else Inl (Exception ''dynamically sized arrays are not supported''))
      | FuncDecl args t \<Rightarrow> funcdecl_to_ctypes type ndpointer
      | _ \<Rightarrow> Inl (Exception ''Unknown type''))"
| "funcdecl_to_ctypes type ndpointer =
     (case attr_type type of
        Inl e \<Rightarrow> Inl e
      | Inr rtype \<Rightarrow>
          (case type_to_ctypes rtype ndpointer of
             Inl e \<Rightarrow> Inl e
           | Inr restype \<Rightarrow>
               (case attr_args_params type of
                  Inl e \<Rightarrow> Inl e
                | Inr params \<Rightarrow>
                    (case params_to_ctypes params ndpointer of
                       Inl e \<Rightarrow> Inl e
                     | Inr args \<Rightarrow> Inr (Callback restype args)))))"
| "params_to_ctypes [] ndpointer = Inr []"
| "params_to_ctypes (t # ts) ndpointer =
     (case attr_type t of
        Inl e \<Rightarrow> Inl e
      | Inr ty \<Rightarrow>
          (case type_to_ctypes ty ndpointer of
             Inl e \<Rightarrow> Inl e
           | Inr s \<Rightarrow>
               (case params_to_ctypes ts ndpointer of
                  Inl e \<Rightarrow> Inl e
                | Inr ss \<Rightarrow> Inr (s # ss))))"
  by pat_completeness auto
termination
  by (relation "measure (\<lambda>x. case x of
          Inl (t, b) \<Rightarrow> 2 * size t + 1
        | Inr (Inl (t, b)) \<Rightarrow> 2 * size t
        | Inr (Inr (ts, b)) \<Rightarrow> 2 * size_list size ts + 1)")
     (auto dest: attr_type_size attr_args_params_size)


declare type_to_ctypes.simps [simp del]
declare funcdecl_to_ctypes.simps [simp del]

section \<open>AST Collector\<close>

record Function =
  fn_name :: string
  fn_restype :: node
  fn_args :: "node list"

record Struct_decl =
  st_name :: string
  st_members :: "(string option \<times> node) list"

record Enum_decl =
  en_name :: string
  en_values :: "(string \<times> string) list"

text \<open>The visitor's fields carry the prefix \<open>v_\<close>.\<close>

record AstVisitor =
  v_functions :: "Function list"
  v_enums :: "Enum_decl list"
  v_structs :: "Struct_decl list"
  v_types :: "(string \<times> node) list"
  v_defines :: "(string \<times> string) list"

text \<open>\<^verbatim>\<open>AstVisitor.__init__\<close>\<close>

definition new_visitor :: AstVisitor where
  "new_visitor = \<lparr>v_functions = [], v_enums = [], v_structs = [], v_types = [], v_defines = []\<rparr>"

text \<open>
  The loop \<^verbatim>\<open>for parameter in ...params: function.add_arg(parameter.type)\<close>,
  started with the arguments added so far.
\<close>

fun add_args :: "node list \<Rightarrow> node list \<Rightarrow> error + node list" where
  "add_args args [] = Inr args"
| "add_args args (parameter # rest) =
     (case attr_type parameter of
        Inl e \<Rightarrow> Inl e
      | Inr ty \<Rightarrow> add_args (args @ [ty]) rest)"

text \<open>\<^verbatim>\<open>AstVisitor.visit_Decl\<close>; \<^verbatim>\<open>None.startswith\<close> is an attribute error.\<close>

definition visit_Decl :: "AstVisitor \<Rightarrow> node \<Rightarrow> error + AstVisitor" where
  "visit_Decl self node =
     (case attr_name node of
        Inl e \<Rightarrow> Inl e
      | Inr None \<Rightarrow> Inl AttributeError
      | Inr (Some name) \<Rightarrow>
          if \<not> startswith name ''rascal_'' then Inr self
          else
            (case attr_type node of
               Inl e \<Rightarrow> Inl e
             | Inr ty \<Rightarrow>
                 (case attr_type ty of
                    Inl e \<Rightarrow> Inl e
                  | Inr restype \<Rightarrow>
                      (case attr_args_params ty of
                         Inl e \<Rightarrow> Inl e
                       | Inr params \<Rightarrow>
                           (case add_args [] params of
                              Inl e \<Rightarrow> Inl e
                            | Inr args \<Rightarrow>
                                Inr (self\<lparr>v_functions := v_functions self @
                                  [\<lparr>fn_name = name, fn_restype = restype, fn_args = args\<rparr>]\<rparr>))))))"

text \<open>
  The loop over \<^verbatim>\<open>values.enumerators\<close>: \<^verbatim>\<open>enum.add_value(enumerator.name,
  enumerator.value.value)\<close>.
\<close>

fun add_values :: "(string \<times> string) list \<Rightarrow> (string \<times> expr option) list \<Rightarrow>
    error + (string \<times> string) list" where
  "add_values vals [] = Inr vals"
| "add_values vals ((name, v) # rest) =
     (case attr_value v of
        Inl e \<Rightarrow> Inl e
      | Inr literal \<Rightarrow> add_values (dict_set name literal vals) rest)"

text \<open>
  The loop over \<^verbatim>\<open>children()\<close> of a struct:
  \<^verbatim>\<open>struct.add_member(member.name, member.type)\<close>.
\<close>

fun add_members :: "(string option \<times> node) list \<Rightarrow> node list \<Rightarrow>
    error + (string option \<times> node) list" where
  "add_members ms [] = Inr ms"
| "add_members ms (member # rest) =
     (case attr_name member of
        Inl e \<Rightarrow> Inl e
      | Inr name \<Rightarrow>
          (case attr_type member of
             Inl e \<Rightarrow> Inl e
           | Inr ty \<Rightarrow> add_members (dict_set name ty ms) rest))"

text \<open>\<^verbatim>\<open>AstVisitor.visit_Typedef\<close>, called on \<open>Typedef\<close> nodes only.\<close>

fun visit_Typedef :: "AstVisitor \<Rightarrow> node \<Rightarrow> error + AstVisitor" where
  "visit_Typedef self (Typedef name ty) =
     (if \<not> startswith name ''rascal_'' then Inr self
      else
        (case attr_type ty of
           Inl e \<Rightarrow> Inl e
         | Inr inner \<Rightarrow>
             (case inner of
                Enum n vs \<Rightarrow>
                  (case vs of
                     None \<Rightarrow> Inl AttributeError
                   | Some enumerators \<Rightarrow>
                       (case add_values [] enumerators of
                          Inl e \<Rightarrow> Inl e
                        | Inr vals \<Rightarrow>
                            Inr (self\<lparr>v_enums := v_enums self @
                              [\<lparr>en_name = name, en_values = vals\<rparr>]\<rparr>)))
              | Struct n ds \<Rightarrow>
                  (case add_members [] (case ds of None \<Rightarrow> [] | Some decls \<Rightarrow> decls) of
                     Inl e \<Rightarrow> Inl e
                   | Inr ms \<Rightarrow>
                       Inr (self\<lparr>v_structs := v_structs self @
                         [\<lparr>st_name = name, st_members = ms\<rparr>]\<rparr>))
              | _ \<Rightarrow> Inr (self\<lparr>v_types := dict_set name inner (v_types self)\<rparr>))))"
| "visit_Typedef self _ = Inl AttributeError"

text \<open>
  \<^verbatim>\<open>NodeVisitor.visit\<close> of pycparser dispatches on the node class; a class without
  a \<^verbatim>\<open>visit_\<close> method gets \<^verbatim>\<open>generic_visit\<close>, which visits the node's children
  in order.  \<open>children\<close> lists them (a \<^verbatim>\<open>ParamList\<close> by its parameters).
\<close>

fun children :: "node \<Rightarrow> node list" where
  "children (PtrDecl q t) = [t]"
| "children (TypeDecl d q t) = [t]"
| "children (ArrayDecl t dim) = [t]"
| "children (FuncDecl args t) = (case args of None \<Rightarrow> [] | Some ps \<Rightarrow> ps) @ [t]"
| "children (IdentifierType names) = []"
| "children (Struct n ds) = (case ds of None \<Rightarrow> [] | Some decls \<Rightarrow> decls)"
| "children (Union n ds) = (case ds of None \<Rightarrow> [] | Some decls \<Rightarrow> decls)"
| "children (Enum n vs) = []"
| "children (Decl n t) = [t]"
| "children (Typename n t) = [t]"
| "children (Typedef n t) = [t]"
| "children EllipsisParam = []"
| "children (FileAST ext) = ext"

function visit :: "AstVisitor \<Rightarrow> node \<Rightarrow> error + AstVisitor"
  and generic_visit :: "AstVisitor \<Rightarrow> node list \<Rightarrow> error + AstVisitor"
where
  "visit self node =
     (case node of
        Decl n t \<Rightarrow> visit_Decl self node
      | Typedef n t \<Rightarrow> visit_Typedef self node
      | _ \<Rightarrow> generic_visit self (children node))"
| "generic_visit self [] = Inr self"
| "generic_visit self (c # cs) =
     (case visit self c of
        Inl e \<Rightarrow> Inl e
      | Inr self' \<Rightarrow> generic_visit self' cs)"
  by pat_completeness auto
termination
proof (relation "measure (\<lambda>x. case x of
          Inl (v, n) \<Rightarrow> 2 * size n + 1
        | Inr (v, cs) \<Rightarrow> 2 * size_list size cs)")
  show "wf (measure (\<lambda>x. case x of
          Inl (v, n) \<Rightarrow> 2 * size n + 1
        | Inr (v, cs) \<Rightarrow> 2 * size_list size cs))"
    by simp
qed (auto simp: less_Suc_eq_le split: option.splits)

declare visit.simps [simp del]


section \<open>The macro scan\<close>

text \<open>
  Lines of the header are strings of characters with code points below 256.
  \<open>isspace\<close> holds of the characters Python's \<^verbatim>\<open>str.split()\<close> treats as white
  space in that range.
\<close>

definition isspace :: "char \<Rightarrow> bool" where
  "isspace c = (c \<in> set [CHR 0x09, CHR 0x0A, CHR 0x0B, CHR 0x0C, CHR 0x0D,
     CHR 0x1C, CHR 0x1D, CHR 0x1E, CHR 0x1F, CHR 0x20, CHR 0x85, CHR 0xA0])"

text \<open>
  \<^verbatim>\<open>line.split()\<close>: the maximal runs of non-space characters, in order;
  \<open>split_from cur s\<close> has read the token \<open>cur\<close> so far.
\<close>

fun split_from :: "string \<Rightarrow> string \<Rightarrow> string list" where
  "split_from cur [] = (if cur = [] then [] else [cur])"
| "split_from cur (c # cs) =
     (if isspace c then (if cur = [] then split_from [] cs else cur # split_from [] cs)
      else split_from (cur @ [c]) cs)"

definition split :: "string \<Rightarrow> string list" where
  "split line = split_from [] line"

text \<open>\<^verbatim>\<open>sub in s\<close>\<close>

fun contains :: "string \<Rightarrow> string \<Rightarrow> bool" where
  "contains sub [] = (sub = [])"
| "contains sub (c # cs) = (startswith (c # cs) sub \<or> contains sub cs)"

text \<open>
  The loop \<^verbatim>\<open>for line in fd\<close> of \<^verbatim>\<open>parse\<close>, on the dictionary
  \<^verbatim>\<open>visitor.defines\<close>; \<^verbatim>\<open>split[1]\<close> and \<^verbatim>\<open>split[2]\<close> raise an index error on
  a list that is too short.
\<close>

fun scan_defines :: "(string \<times> string) list \<Rightarrow> string list \<Rightarrow> error + (string \<times> string) list" where
  "scan_defines ds [] = Inr ds"
| "scan_defines ds (line # rest) =
     (if contains ''#define'' line then
        (case split line of
           t0 # name # others \<Rightarrow>
             if name = ''RASCALINE_H'' then scan_defines ds rest
             else (case others of
                     [] \<Rightarrow> Inl IndexError
                   | val # _ \<Rightarrow> scan_defines (dict_set name val ds) rest)
         | _ \<Rightarrow> Inl IndexError)
      else scan_defines ds rest)"

text \<open>
  \<^verbatim>\<open>parse(file)\<close>, given what the two readings of the file deliver: the tree
  \<^verbatim>\<open>parse_file\<close> returns and the lines of the text.
\<close>

definition parse :: "node \<Rightarrow> string list \<Rightarrow> error + AstVisitor" where
  "parse ast lines =
     (case visit new_visitor ast of
        Inl e \<Rightarrow> Inl e
      | Inr visitor \<Rightarrow>
          (case scan_defines (v_defines visitor) lines of
             Inl e \<Rightarrow> Inl e
           | Inr ds \<Rightarrow> Inr (visitor\<lparr>v_defines := ds\<rparr>)))"

section \<open>The output model\<close>

text \<open>
  The generators write text.  Each returns the text written when it runs to its
  end, and the error otherwise.
\<close>

definition NL :: string where
  "NL = [CHR 0x0A]"

text \<open>Python prints \<^verbatim>\<open>None\<close> as the text \<^verbatim>\<open>None\<close>.\<close>

fun str_opt :: "string option \<Rightarrow> string" where
  "str_opt None = ''None''"
| "str_opt (Some s) = s"

definition generate_enum :: "Enum_decl \<Rightarrow> string" where
  "generate_enum enum =
     NL @ NL @ ''class '' @ en_name enum @ ''(enum.Enum):'' @ NL @
     concat (map (\<lambda>(name, v). ''    '' @ name @ '' = '' @ v @ NL) (en_values enum))"

definition generate_enums :: "Enum_decl list \<Rightarrow> string" where
  "generate_enums es = concat (map generate_enum es)"

text \<open>The loop over \<^verbatim>\<open>struct.members.items()\<close>: every field is translated with
  \<^verbatim>\<open>ndpointer\<close> set.\<close>

fun generate_fields :: "(string option \<times> node) list \<Rightarrow> error + string" where
  "generate_fields [] = Inr []"
| "generate_fields ((name, ty) # rest) =
     (case type_to_ctypes ty True of
        Inl e \<Rightarrow> Inl e
      | Inr s \<Rightarrow>
          (case generate_fields rest of
             Inl e \<Rightarrow> Inl e
           | Inr out \<Rightarrow>
               Inr (''        ('' @ [CHR 0x22] @ str_opt name @ [CHR 0x22] @ '', '' @ s @ ''),'' @ NL @ out)))"

definition generate_struct :: "Struct_decl \<Rightarrow> error + string" where
  "generate_struct struct =
     (if length (st_members struct) = 0 then
        Inr (NL @ NL @ ''class '' @ st_name struct @ ''(ctypes.Structure):'' @ NL @
             ''    pass'' @ NL)
      else
        (case generate_fields (st_members struct) of
           Inl e \<Rightarrow> Inl e
         | Inr body \<Rightarrow>
             Inr (NL @ NL @ ''class '' @ st_name struct @ ''(ctypes.Structure):'' @ NL @
                  ''    _fields_ = ['' @ NL @ body @ ''    ]'' @ NL)))"

fun generate_structs :: "Struct_decl list \<Rightarrow> error + string" where
  "generate_structs [] = Inr []"
| "generate_structs (struct # rest) =
     (case generate_struct struct of
        Inl e \<Rightarrow> Inl e
      | Inr out \<Rightarrow>
          (case generate_structs rest of
             Inl e \<Rightarrow> Inl e
           | Inr out' \<Rightarrow> Inr (out @ out')))"

text \<open>\<^verbatim>\<open>[type_to_ctypes(arg) for arg in function.args]\<close>\<close>

fun args_to_ctypes :: "node list \<Rightarrow> error + string list" where
  "args_to_ctypes [] = Inr []"
| "args_to_ctypes (arg # rest) =
     (case type_to_ctypes arg False of
        Inl e \<Rightarrow> Inl e
      | Inr s \<Rightarrow>
          (case args_to_ctypes rest of
             Inl e \<Rightarrow> Inl e
           | Inr ss \<Rightarrow> Inr (s # ss)))"

text \<open>The parameter list registered for a function: \<^verbatim>\<open>args\<close> after the void rule.\<close>

definition function_argtypes :: "Function \<Rightarrow> error + string list" where
  "function_argtypes function =
     (case args_to_ctypes (fn_args function) of
        Inl e \<Rightarrow> Inl e
      | Inr args \<Rightarrow> if args = [''None''] then Inr [] else Inr args)"

text \<open>The return type registered for a function: \<^verbatim>\<open>restype\<close> after the status rule.\<close>

definition function_restype :: "Function \<Rightarrow> error + string" where
  "function_restype function =
     (case type_to_ctypes (fn_restype function) False of
        Inl e \<Rightarrow> Inl e
      | Inr restype \<Rightarrow>
          if restype = ''rascal_status_t'' then Inr ''_check_rascal_status_t''
          else Inr restype)"

definition generate_function :: "Function \<Rightarrow> error + string" where
  "generate_function function =
     (case function_argtypes function of
        Inl e \<Rightarrow> Inl e
      | Inr args \<Rightarrow>
          (case function_restype function of
             Inl e \<Rightarrow> Inl e
           | Inr restype \<Rightarrow>
               Inr (NL @ ''    lib.'' @ fn_name function @ ''.argtypes = ['' @ NL @ ''        '' @
                    join ('','' @ NL @ ''        '') args @ NL @ ''    ]'' @ NL @
                    ''    lib.'' @ fn_name function @ ''.restype = '' @ restype @ NL)))"

fun generate_function_list :: "Function list \<Rightarrow> error + string" where
  "generate_function_list [] = Inr []"
| "generate_function_list (function # rest) =
     (case generate_function function of
        Inl e \<Rightarrow> Inl e
      | Inr out \<Rightarrow>
          (case generate_function_list rest of
             Inl e \<Rightarrow> Inl e
           | Inr out' \<Rightarrow> Inr (out @ out')))"

definition generate_functions :: "Function list \<Rightarrow> error + string" where
  "generate_functions fs =
     (case generate_function_list fs of
        Inl e \<Rightarrow> Inl e
      | Inr out \<Rightarrow>
          Inr (NL @ NL @ ''def setup_functions(lib):'' @ NL @
               ''    from .status import _check_rascal_status_t'' @ NL @ out))"


section \<open>Notions used in the properties\<close>

text \<open>
  The name of a type written bare, that is neither pointer, array nor function:
  the name \<^verbatim>\<open>_typedecl_name\<close> finds in a \<open>TypeDecl\<close>, or the first name of an
  \<open>IdentifierType\<close>.
\<close>

fun bare_name :: "node \<Rightarrow> string option" where
  "bare_name (TypeDecl d q t) =
     (case typedecl_name (TypeDecl d q t) of Inr (Some n) \<Rightarrow> Some n | _ \<Rightarrow> None)"
| "bare_name (IdentifierType (n # ns)) = Some n"
| "bare_name _ = None"

text \<open>The names of all declarations a visitor has collected from the tree.\<close>

definition collected_names :: "AstVisitor \<Rightarrow> string list" where
  "collected_names v =
     map fn_name (v_functions v) @ map en_name (v_enums v) @
     map st_name (v_structs v) @ map fst (v_types v)"

text \<open>
  Top-level declarations.  A named declaration is a \<open>Decl\<close> with a name or a
  \<open>Typedef\<close>; \<open>primary_prefix\<close> holds when its name starts with \<^verbatim>\<open>rascal_\<close>.
  The typedefs are told apart by what \<^verbatim>\<open>node.type.type\<close> is: an enum, a struct,
  or anything else.  \<open>names_of kind ext\<close> lists, in source order, the names of
  the declarations of \<open>ext\<close> of that kind that carry the primary prefix.
  \<open>add_key\<close> is what storing under a key does to the keys of a dictionary.
\<close>

fun named_declaration :: "node \<Rightarrow> bool" where
  "named_declaration (Decl (Some n) t) = True"
| "named_declaration (Typedef n t) = True"
| "named_declaration _ = False"

fun declared_name :: "node \<Rightarrow> string" where
  "declared_name (Decl (Some n) t) = n"
| "declared_name (Typedef n t) = n"
| "declared_name _ = []"

definition primary_prefix :: "node \<Rightarrow> bool" where
  "primary_prefix d = startswith (declared_name d) ''rascal_''"

fun is_function_decl :: "node \<Rightarrow> bool" where
  "is_function_decl (Decl n t) = True"
| "is_function_decl _ = False"

fun is_enum_typedef :: "node \<Rightarrow> bool" where
  "is_enum_typedef (Typedef n ty) =
     (case attr_type ty of Inr (Enum m vs) \<Rightarrow> True | _ \<Rightarrow> False)"
| "is_enum_typedef _ = False"

fun is_struct_typedef :: "node \<Rightarrow> bool" where
  "is_struct_typedef (Typedef n ty) =
     (case attr_type ty of Inr (Struct m ds) \<Rightarrow> True | _ \<Rightarrow> False)"
| "is_struct_typedef _ = False"

fun is_alias_typedef :: "node \<Rightarrow> bool" where
  "is_alias_typedef (Typedef n ty) =
     (\<not> is_enum_typedef (Typedef n ty) \<and> \<not> is_struct_typedef (Typedef n ty))"
| "is_alias_typedef _ = False"

definition add_key :: "string \<Rightarrow> string list \<Rightarrow> string list" where
  "add_key k ks = (if k \<in> set ks then ks else ks @ [k])"

definition names_of :: "(node \<Rightarrow> bool) \<Rightarrow> node list \<Rightarrow> string list" where
  "names_of kind ext = map declared_name (filter (\<lambda>d. kind d \<and> primary_prefix d) ext)"

definition name_lists :: "AstVisitor \<Rightarrow> string list \<times> string list \<times> string list \<times> string list" where
  "name_lists v = (map fn_name (v_functions v), map en_name (v_enums v),
                   map st_name (v_structs v), map fst (v_types v))"

text \<open>
  The supported shape grammar of the Type Translator.  \<open>has_name\<close>: a \<open>TypeDecl\<close>
  of a struct or enum with a name, or of an identifier type with exactly one name.
  \<open>supported\<close>: a named bare type; an identifier type with a name; a pointer to a
  named type; a pointer to pointer to a named type; an array with a literal
  dimension of a supported element; a function type, or a pointer to one, with a
  parameter list, whose return type and parameter types are supported.
\<close>

definition has_name :: "node \<Rightarrow> bool" where
  "has_name t = (case typedecl_name t of Inr (Some n) \<Rightarrow> True | _ \<Rightarrow> False)"

function supported :: "node \<Rightarrow> bool"
  and supported_funcdecl :: "node \<Rightarrow> bool"
  and supported_params :: "node list \<Rightarrow> bool"
where
  "supported t =
     (case t of
        PtrDecl q t1 \<Rightarrow>
          (case t1 of
             PtrDecl q1 t2 \<Rightarrow> (case t2 of TypeDecl d2 q2 i2 \<Rightarrow> has_name t2 | _ \<Rightarrow> False)
           | TypeDecl d1 q1 i1 \<Rightarrow> has_name t1
           | FuncDecl args1 r1 \<Rightarrow> supported_funcdecl t1
           | _ \<Rightarrow> False)
      | TypeDecl d q i \<Rightarrow> has_name t
      | IdentifierType names \<Rightarrow> names \<noteq> []
      | ArrayDecl elem dim \<Rightarrow> is_Constant dim \<and> supported elem
      | FuncDecl args r \<Rightarrow> supported_funcdecl t
      | _ \<Rightarrow> False)"
| "supported_funcdecl t =
     (case t of
        FuncDecl args r \<Rightarrow>
          supported r \<and> (case args of None \<Rightarrow> False | Some ps \<Rightarrow> supported_params ps)
      | _ \<Rightarrow> False)"
| "supported_params [] = True"
| "supported_params (p # ps) =
     ((case attr_type p of Inl e \<Rightarrow> False | Inr ty \<Rightarrow> supported ty) \<and> supported_params ps)"
  by pat_completeness auto
termination
  by (relation "measure (\<lambda>x. case x of
          Inl t \<Rightarrow> 2 * size t + 1
        | Inr (Inl t) \<Rightarrow> 2 * size t
        | Inr (Inr ts) \<Rightarrow> 2 * size_list size ts + 1)")
     (auto dest: attr_type_size)

declare supported.simps [simp del]
declare supported_funcdecl.simps [simp del]

declare c_type_name.simps(2) [simp del]

section \<open>Properties of the Name Resolver\<close>

text \<open>
  C9.  A bare type name that starts with the primary library's prefix \<^verbatim>\<open>rascal_\<close>
  is returned unchanged by the Name Resolver, except the enum name
  \<^verbatim>\<open>rascal_indexes_kind\<close>, which is always mapped to the integer type
  \<^verbatim>\<open>ctypes.c_int\<close>.
\<close>

theorem c_type_name_primary_prefix:
  "startswith name ''rascal_'' \<Longrightarrow>
   c_type_name (Some name) =
     Inr (if name = ''rascal_indexes_kind'' then ''ctypes.c_int'' else name)"
  by (simp add: c_type_name.simps)

theorem c_type_name_primary_prefix_witness:
  "startswith ''rascal_status_t'' ''rascal_'' \<and>
   c_type_name (Some ''rascal_status_t'') = Inr ''rascal_status_t'' \<and>
   startswith ''rascal_indexes_kind'' ''rascal_'' \<and>
   c_type_name (Some ''rascal_indexes_kind'') = Inr ''ctypes.c_int''"
  using c_type_name_primary_prefix [of "''rascal_status_t''"]
    c_type_name_primary_prefix [of "''rascal_indexes_kind''"]
  by (simp add: startswith_def)

text \<open>What the Name Resolver can return, and for which names.\<close>

lemma c_type_name_cases:
  "c_type_name (Some n) = Inr s \<Longrightarrow>
     ((startswith n ''rascal_'' \<or> startswith n ''eqs_'') \<and> s = n) \<or>
     s = ''ctypes.c_int'' \<or> (n = ''void'' \<and> s = ''None'') \<or> s = ''c_uintptr_t'' \<or>
     s = ''ctypes.c_int32'' \<or> s = ''ctypes.c_uint32'' \<or> s = ''ctypes.c_int64'' \<or>
     s = ''ctypes.c_uint64'' \<or> s = ''ctypes.c_'' @ n"
  by (simp only: c_type_name.simps split: if_splits; (simp only: sum.inject)?; blast)

lemma c_type_name_Some: "\<exists>s. c_type_name (Some n) = Inr s"
  by (simp add: c_type_name.simps)


lemma c_type_name_None_text: "c_type_name (Some n) = Inr ''None'' \<longleftrightarrow> n = ''void''"
proof
  assume "c_type_name (Some n) = Inr ''None''"
  from c_type_name_cases[OF this] show "n = ''void''"
    by (auto simp: startswith_def)
next
  assume "n = ''void''"
  then show "c_type_name (Some n) = Inr ''None''"
    by (simp add: startswith_def c_type_name.simps)
qed

lemma c_type_name_status: "c_type_name (Some n) = Inr ''rascal_status_t'' \<longleftrightarrow> n = ''rascal_status_t''"
proof
  assume "c_type_name (Some n) = Inr ''rascal_status_t''"
  from c_type_name_cases[OF this] show "n = ''rascal_status_t''"
    by auto
next
  assume "n = ''rascal_status_t''"
  then show "c_type_name (Some n) = Inr ''rascal_status_t''"
    by (simp add: startswith_def c_type_name.simps)
qed

lemma c_type_name_not_check: "c_type_name (Some n) \<noteq> Inr ''_check_rascal_status_t''"
proof
  assume "c_type_name (Some n) = Inr ''_check_rascal_status_t''"
  from c_type_name_cases[OF this] show False
    by (auto simp: startswith_def)
qed

section \<open>Properties of the Type Translator\<close>

text \<open>The shape of every translation, by the outermost node.\<close>

lemma FixedArray_has_space: "CHR '' '' \<notin> set s \<Longrightarrow> (s = FixedArray a b) = False"
  by (auto simp: FixedArray_def)

lemma funcdecl_to_ctypes_shape:
  "funcdecl_to_ctypes t nd = Inr s \<Longrightarrow> startswith s ''CFUNCTYPE(''"
  by (auto simp: funcdecl_to_ctypes.simps Callback_def startswith_def split: sum.splits)

lemma pointer_shape:
  assumes "type_to_ctypes (PtrDecl q t1) nd = Inr s"
  shows "startswith s ''POINTER('' \<or> s = Opaque \<or> s = StringPointer \<or>
         startswith s ''CFUNCTYPE(''"
proof (cases t1)
  case (PtrDecl q1 t2)
  show ?thesis
  proof (cases t2)
    case (TypeDecl d2 q2 i2)
    with assms PtrDecl show ?thesis
      by (subst (asm) type_to_ctypes.simps)
         (auto simp: startswith_def Pointer_def ArrayBufferPointer_def StringPointerArray_def
           split: sum.splits if_splits)
  qed (use assms PtrDecl in \<open>simp_all add: type_to_ctypes.simps\<close>)
next
  case (TypeDecl d1 q1 i1)
  with assms show ?thesis
    by (subst (asm) type_to_ctypes.simps)
       (auto simp: startswith_def Pointer_def split: sum.splits if_splits)
next
  case (FuncDecl a1 r1)
  with assms show ?thesis
    by (subst (asm) type_to_ctypes.simps) (auto dest: funcdecl_to_ctypes_shape)
qed (use assms in \<open>simp_all add: type_to_ctypes.simps\<close>)

lemma type_to_ctypes_shape:
  assumes "type_to_ctypes t nd = Inr s"
  shows "(\<exists>n. bare_name t = Some n \<and> c_type_name (Some n) = Inr s) \<or>
         (bare_name t = None \<and>
           (startswith s ''POINTER('' \<or> s = Opaque \<or> s = StringPointer \<or>
            startswith s ''CFUNCTYPE('' \<or> (\<exists>a b. s = FixedArray a b)))"
proof (cases t)
  case (PtrDecl q t1)
  with assms pointer_shape show ?thesis
    by auto
next
  case (TypeDecl d q i)
  with assms show ?thesis
    by (subst (asm) type_to_ctypes.simps) (auto split: sum.splits option.splits)
next
  case (ArrayDecl e dim)
  with assms show ?thesis
    by (subst (asm) type_to_ctypes.simps) (auto split: sum.splits if_splits)
next
  case (FuncDecl a r)
  with assms show ?thesis
    by (subst (asm) type_to_ctypes.simps) (auto dest: funcdecl_to_ctypes_shape)
next
  case (IdentifierType ns)
  with assms show ?thesis
    by (subst (asm) type_to_ctypes.simps) (auto split: list.splits)
qed (use assms in \<open>simp_all add: type_to_ctypes.simps\<close>)


lemma bare_name_translation:
  "bare_name t = Some n \<Longrightarrow> type_to_ctypes t nd = c_type_name (Some n)"
  by (cases t rule: bare_name.cases)
     (auto simp: type_to_ctypes.simps split: sum.splits option.splits)

lemma translates_to_None:
  "type_to_ctypes t nd = Inr ''None'' \<longleftrightarrow> bare_name t = Some ''void''"
proof
  assume a: "type_to_ctypes t nd = Inr ''None''"
  from type_to_ctypes_shape[OF a] show "bare_name t = Some ''void''"
    by (auto simp: c_type_name_None_text startswith_def Opaque_def StringPointer_def
        FixedArray_has_space)
next
  assume "bare_name t = Some ''void''"
  then show "type_to_ctypes t nd = Inr ''None''"
    by (simp add: bare_name_translation c_type_name_None_text)
qed

lemma translates_to_status:
  "type_to_ctypes t nd = Inr ''rascal_status_t'' \<longleftrightarrow> bare_name t = Some ''rascal_status_t''"
proof
  assume a: "type_to_ctypes t nd = Inr ''rascal_status_t''"
  from type_to_ctypes_shape[OF a] show "bare_name t = Some ''rascal_status_t''"
    by (auto simp: c_type_name_status startswith_def Opaque_def StringPointer_def
        FixedArray_has_space)
next
  assume "bare_name t = Some ''rascal_status_t''"
  then show "type_to_ctypes t nd = Inr ''rascal_status_t''"
    by (simp add: bare_name_translation c_type_name_status)
qed

lemma never_translates_to_check:
  "type_to_ctypes t nd \<noteq> Inr ''_check_rascal_status_t''"
proof
  assume a: "type_to_ctypes t nd = Inr ''_check_rascal_status_t''"
  from type_to_ctypes_shape[OF a] show False
    by (auto simp: c_type_name_not_check startswith_def Opaque_def StringPointer_def
        FixedArray_has_space)
qed

lemma args_to_ctypes_length:
  "args_to_ctypes as = Inr ts \<Longrightarrow> length ts = length as"
  by (induction as arbitrary: ts) (auto split: sum.splits)

lemma args_to_ctypes_nth:
  "args_to_ctypes as = Inr ts \<Longrightarrow> i < length as \<Longrightarrow>
   type_to_ctypes (as ! i) False = Inr (ts ! i)"
proof (induction as arbitrary: ts i)
  case Nil
  then show ?case by simp
next
  case (Cons a as)
  then show ?case
    by (cases i) (auto split: sum.splits)
qed

lemma args_to_ctypes_None:
  "args_to_ctypes as = Inr [''None''] \<longleftrightarrow> (\<exists>t. as = [t] \<and> bare_name t = Some ''void'')"
proof (cases as)
  case Nil
  then show ?thesis by simp
next
  case (Cons a rest)
  show ?thesis
  proof (cases rest)
    case Nil
    with Cons translates_to_None[of a False] show ?thesis
      by (auto split: sum.splits)
  next
    case (Cons b rest')
    with \<open>as = a # rest\<close> show ?thesis
      by (auto split: sum.splits)
  qed
qed


text \<open>
  C5.  A pointer to \<^verbatim>\<open>char\<close> translates to the string pointer and a pointer to
  pointer to \<^verbatim>\<open>char\<close> to the string pointer array, whatever the qualifiers and
  whatever the context flag (function parameter, return type, struct field);
  these two descriptors are neither the opaque pointer nor a plain nested
  double pointer nor an array buffer pointer.
\<close>

theorem char_pointer_conventions:
  "type_to_ctypes (PtrDecl q (TypeDecl d q1 (IdentifierType [''char'']))) ndpointer
     = Inr StringPointer \<and>
   type_to_ctypes (PtrDecl q (PtrDecl q1 (TypeDecl d q2 (IdentifierType [''char''])))) ndpointer
     = Inr StringPointerArray \<and>
   StringPointer \<noteq> Opaque \<and>
   StringPointerArray \<noteq> Pointer (Pointer elem) \<and>
   StringPointerArray \<noteq> ArrayBufferPointer elem"
  by (simp add: type_to_ctypes.simps StringPointer_def StringPointerArray_def Opaque_def
      Pointer_def ArrayBufferPointer_def)

text \<open>
  C4.  An array whose dimension is a literal constant translates to the fixed
  array of the translated element and the literal's text (and fails as the
  element does when the element has no translation); an array whose dimension
  is anything else, an absent dimension included, fails with the unsupported-type
  error, before the element is looked at.
\<close>

theorem array_dimension_enforcement:
  "type_to_ctypes (ArrayDecl elem (Some (Constant ty v))) ndpointer =
     map_sum id (\<lambda>s. FixedArray s v) (type_to_ctypes elem False) \<and>
   (\<not> is_Constant dim \<longrightarrow>
      type_to_ctypes (ArrayDecl elem dim) ndpointer =
        Inl (Exception ''dynamically sized arrays are not supported''))"
proof
  show "type_to_ctypes (ArrayDecl elem (Some (Constant ty v))) ndpointer =
     map_sum id (\<lambda>s. FixedArray s v) (type_to_ctypes elem False)"
    by (subst type_to_ctypes.simps) (simp split: sum.splits)
  show "\<not> is_Constant dim \<longrightarrow>
      type_to_ctypes (ArrayDecl elem dim) ndpointer =
        Inl (Exception ''dynamically sized arrays are not supported'')"
    by (subst type_to_ctypes.simps) simp
qed

theorem array_dimension_enforcement_witness:
  "type_to_ctypes (ArrayDecl (TypeDecl (Some ''field'') [] (IdentifierType [''double'']))
      (Some (Constant ''int'' ''10''))) True = Inr (FixedArray ''ctypes.c_double'' ''10'') \<and>
   \<not> is_Constant (Some (ID ''n'')) \<and>
   type_to_ctypes (ArrayDecl (TypeDecl (Some ''field'') [] (IdentifierType [''double'']))
      (Some (ID ''n''))) True = Inl (Exception ''dynamically sized arrays are not supported'')"
  using array_dimension_enforcement [of "TypeDecl (Some ''field'') [] (IdentifierType [''double''])"
      "''int''" "''10''" True "Some (ID ''n'')"]
  by (simp add: type_to_ctypes.simps c_type_name.simps startswith_def)





section \<open>Properties of the output model\<close>

text \<open>The collector keeps the parameter types of a declaration, all and in order.\<close>

lemma add_args_spec:
  "add_args acc ps = Inr args \<Longrightarrow>
   \<exists>ts. args = acc @ ts \<and> length ts = length ps \<and>
        (\<forall>i < length ps. attr_type (ps ! i) = Inr (ts ! i))"
proof (induction ps arbitrary: acc)
  case Nil
  then show ?case by simp
next
  case (Cons p ps)
  from Cons.prems obtain ty where ty: "attr_type p = Inr ty"
    and rest: "add_args (acc @ [ty]) ps = Inr args"
    by (auto split: sum.splits)
  from Cons.IH [OF rest] obtain ts where ts: "args = (acc @ [ty]) @ ts"
    "length ts = length ps" "\<forall>i < length ps. attr_type (ps ! i) = Inr (ts ! i)"
    by blast
  have "\<forall>i < length (p # ps). attr_type ((p # ps) ! i) = Inr ((ty # ts) ! i)"
  proof (intro allI impI)
    fix i assume "i < length (p # ps)"
    then show "attr_type ((p # ps) ! i) = Inr ((ty # ts) ! i)"
      using ty ts(3) by (cases i) auto
  qed
  with ts show ?case
    by (intro exI [where x = "ty # ts"]) simp
qed

lemma visit_function_declaration:
  assumes "startswith name ''rascal_''"
    and "visit v (Decl (Some name) (FuncDecl (Some params) rt)) = Inr v'"
  shows "\<exists>args. v' = v\<lparr>v_functions := v_functions v @
            [\<lparr>fn_name = name, fn_restype = rt, fn_args = args\<rparr>]\<rparr> \<and>
          length args = length params \<and>
          (\<forall>i < length params. attr_type (params ! i) = Inr (args ! i))"
proof -
  from assms obtain args where args: "add_args [] params = Inr args"
    and v': "v' = v\<lparr>v_functions := v_functions v @
            [\<lparr>fn_name = name, fn_restype = rt, fn_args = args\<rparr>]\<rparr>"
    by (auto simp: visit.simps visit_Decl_def split: sum.splits)
  from add_args_spec [OF args] v' show ?thesis
    by auto
qed

text \<open>
  C6.  Take a function declaration with the primary prefix that the collector
  accepts.  The collected function holds the types of the declared parameters,
  all of them and in declaration order.  When the sole declared parameter is
  \<^verbatim>\<open>void\<close>, the function is registered with an empty parameter list.  In every
  other case it is registered with the translations of its parameter types (or
  fails as they do), and these are as many as the declared parameters and stand
  in declaration order.
\<close>

theorem void_parameter_collapse:
  assumes "startswith name ''rascal_''"
    and "visit v (Decl (Some name) (FuncDecl (Some params) rt)) = Inr v'"
  shows "\<exists>f. v_functions v' = v_functions v @ [f] \<and>
     fn_name f = name \<and> fn_restype f = rt \<and>
     length (fn_args f) = length params \<and>
     (\<forall>i < length params. attr_type (params ! i) = Inr (fn_args f ! i)) \<and>
     ((\<exists>p t. params = [p] \<and> attr_type p = Inr t \<and> bare_name t = Some ''void'') \<longrightarrow>
        function_argtypes f = Inr []) \<and>
     ((\<nexists>p t. params = [p] \<and> attr_type p = Inr t \<and> bare_name t = Some ''void'') \<longrightarrow>
        function_argtypes f = args_to_ctypes (fn_args f)) \<and>
     (\<forall>ts. args_to_ctypes (fn_args f) = Inr ts \<longrightarrow>
        length ts = length params \<and>
        (\<forall>i < length params. \<exists>t. attr_type (params ! i) = Inr t \<and>
           type_to_ctypes t False = Inr (ts ! i)))"
proof -
  from visit_function_declaration [OF assms] obtain args
    where v': "v' = v\<lparr>v_functions := v_functions v @
            [\<lparr>fn_name = name, fn_restype = rt, fn_args = args\<rparr>]\<rparr>"
      and len: "length args = length params"
      and nth: "\<forall>i < length params. attr_type (params ! i) = Inr (args ! i)"
    by blast
  define f where "f = \<lparr>fn_name = name, fn_restype = rt, fn_args = args\<rparr>"
  have fa: "fn_args f = args" by (simp add: f_def)
  have sole: "(\<exists>p t. params = [p] \<and> attr_type p = Inr t \<and> bare_name t = Some ''void'') \<longleftrightarrow>
              (\<exists>t. args = [t] \<and> bare_name t = Some ''void'')"
  proof
    assume "\<exists>p t. params = [p] \<and> attr_type p = Inr t \<and> bare_name t = Some ''void''"
    then obtain p t where p: "params = [p]" "attr_type p = Inr t" "bare_name t = Some ''void''"
      by blast
    with len nth have "args = [t]"
      by (cases args) auto
    with p show "\<exists>t. args = [t] \<and> bare_name t = Some ''void''" by blast
  next
    assume "\<exists>t. args = [t] \<and> bare_name t = Some ''void''"
    then obtain t where t: "args = [t]" "bare_name t = Some ''void''" by blast
    with len obtain p where p: "params = [p]"
      by (cases params) auto
    with nth t have "attr_type p = Inr t" by auto
    with p t show "\<exists>p t. params = [p] \<and> attr_type p = Inr t \<and> bare_name t = Some ''void''"
      by blast
  qed
  have c1: "(\<exists>p t. params = [p] \<and> attr_type p = Inr t \<and> bare_name t = Some ''void'') \<longrightarrow>
        function_argtypes f = Inr []"
  proof
    assume "\<exists>p t. params = [p] \<and> attr_type p = Inr t \<and> bare_name t = Some ''void''"
    with sole have "args_to_ctypes (fn_args f) = Inr [''None'']"
      using args_to_ctypes_None [of args] fa by simp
    then show "function_argtypes f = Inr []"
      by (simp add: function_argtypes_def)
  qed
  have c2: "(\<nexists>p t. params = [p] \<and> attr_type p = Inr t \<and> bare_name t = Some ''void'') \<longrightarrow>
        function_argtypes f = args_to_ctypes (fn_args f)"
  proof
    assume "\<nexists>p t. params = [p] \<and> attr_type p = Inr t \<and> bare_name t = Some ''void''"
    with sole have "args_to_ctypes (fn_args f) \<noteq> Inr [''None'']"
      using args_to_ctypes_None [of args] fa by simp
    then show "function_argtypes f = args_to_ctypes (fn_args f)"
      by (simp add: function_argtypes_def split: sum.splits)
  qed
  have c3: "\<forall>ts. args_to_ctypes (fn_args f) = Inr ts \<longrightarrow>
        length ts = length params \<and>
        (\<forall>i < length params. \<exists>t. attr_type (params ! i) = Inr t \<and>
           type_to_ctypes t False = Inr (ts ! i))"
  proof (intro allI impI conjI)
    fix ts assume ts: "args_to_ctypes (fn_args f) = Inr ts"
    from args_to_ctypes_length [OF ts] fa len show "length ts = length params"
      by simp
    fix i assume i: "i < length params"
    with len fa have "i < length (fn_args f)" by simp
    from args_to_ctypes_nth [OF ts this] nth i fa
    show "\<exists>t. attr_type (params ! i) = Inr t \<and> type_to_ctypes t False = Inr (ts ! i)"
      by auto
  qed
  have "v_functions v' = v_functions v @ [f]"
    by (simp add: v' f_def)
  moreover have "fn_name f = name" "fn_restype f = rt"
    by (simp_all add: f_def)
  ultimately show ?thesis
    using fa len nth c1 c2 c3 by (intro exI [where x = f]) simp
qed

theorem void_parameter_collapse_witness:
  "startswith ''rascal_last_error'' ''rascal_'' \<and>
   visit new_visitor (Decl (Some ''rascal_last_error'')
       (FuncDecl (Some [Typename None (TypeDecl None [] (IdentifierType [''void'']))])
          (PtrDecl [] (TypeDecl (Some ''rascal_last_error'') [''const''] (IdentifierType [''char''])))))
     = Inr (new_visitor\<lparr>v_functions := [\<lparr>fn_name = ''rascal_last_error'',
          fn_restype = PtrDecl [] (TypeDecl (Some ''rascal_last_error'') [''const''] (IdentifierType [''char''])),
          fn_args = [TypeDecl None [] (IdentifierType [''void''])]\<rparr>]\<rparr>) \<and>
   function_argtypes \<lparr>fn_name = ''rascal_last_error'',
          fn_restype = PtrDecl [] (TypeDecl (Some ''rascal_last_error'') [''const''] (IdentifierType [''char''])),
          fn_args = [TypeDecl None [] (IdentifierType [''void''])]\<rparr> = Inr [] \<and>
   startswith ''rascal_f'' ''rascal_'' \<and>
   visit new_visitor (Decl (Some ''rascal_f'')
       (FuncDecl (Some [Decl (Some ''a'') (TypeDecl (Some ''a'') [] (IdentifierType [''double''])),
                        Decl (Some ''b'') (PtrDecl [] (TypeDecl (Some ''b'') [] (IdentifierType [''char''])))])
          (TypeDecl (Some ''rascal_f'') [] (IdentifierType [''void'']))))
     = Inr (new_visitor\<lparr>v_functions := [\<lparr>fn_name = ''rascal_f'',
          fn_restype = TypeDecl (Some ''rascal_f'') [] (IdentifierType [''void'']),
          fn_args = [TypeDecl (Some ''a'') [] (IdentifierType [''double'']),
            PtrDecl [] (TypeDecl (Some ''b'') [] (IdentifierType [''char'']))]\<rparr>]\<rparr>) \<and>
   function_argtypes \<lparr>fn_name = ''rascal_f'',
          fn_restype = TypeDecl (Some ''rascal_f'') [] (IdentifierType [''void'']),
          fn_args = [TypeDecl (Some ''a'') [] (IdentifierType [''double'']),
            PtrDecl [] (TypeDecl (Some ''b'') [] (IdentifierType [''char'']))]\<rparr>
     = Inr [''ctypes.c_double'', StringPointer]"
proof -
  let ?d1 = "Decl (Some ''rascal_last_error'')
       (FuncDecl (Some [Typename None (TypeDecl None [] (IdentifierType [''void'']))])
          (PtrDecl [] (TypeDecl (Some ''rascal_last_error'') [''const''] (IdentifierType [''char'']))))"
  let ?f1 = "\<lparr>fn_name = ''rascal_last_error'',
          fn_restype = PtrDecl [] (TypeDecl (Some ''rascal_last_error'') [''const''] (IdentifierType [''char''])),
          fn_args = [TypeDecl None [] (IdentifierType [''void''])]\<rparr>"
  let ?d2 = "Decl (Some ''rascal_f'')
       (FuncDecl (Some [Decl (Some ''a'') (TypeDecl (Some ''a'') [] (IdentifierType [''double''])),
                        Decl (Some ''b'') (PtrDecl [] (TypeDecl (Some ''b'') [] (IdentifierType [''char''])))])
          (TypeDecl (Some ''rascal_f'') [] (IdentifierType [''void''])))"
  let ?f2 = "\<lparr>fn_name = ''rascal_f'',
          fn_restype = TypeDecl (Some ''rascal_f'') [] (IdentifierType [''void'']),
          fn_args = [TypeDecl (Some ''a'') [] (IdentifierType [''double'']),
            PtrDecl [] (TypeDecl (Some ''b'') [] (IdentifierType [''char'']))]\<rparr>"
  have p1: "startswith ''rascal_last_error'' ''rascal_''"
    by (simp add: startswith_def)
  have run1: "visit new_visitor ?d1 = Inr (new_visitor\<lparr>v_functions := [?f1]\<rparr>)"
    by (simp add: visit.simps visit_Decl_def startswith_def new_visitor_def)
  from void_parameter_collapse [OF p1 run1] obtain f
    where f: "v_functions (new_visitor\<lparr>v_functions := [?f1]\<rparr>) = v_functions new_visitor @ [f]"
      and void: "(\<exists>p t. [Typename None (TypeDecl None [] (IdentifierType [''void'']))] = [p] \<and>
                   attr_type p = Inr t \<and> bare_name t = Some ''void'') \<longrightarrow>
                 function_argtypes f = Inr []"
    by (elim exE conjE)
  from f have "f = ?f1"
    by (simp add: new_visitor_def)
  with void have a1: "function_argtypes ?f1 = Inr []"
    by simp
  have p2: "startswith ''rascal_f'' ''rascal_''"
    by (simp add: startswith_def)
  have run2: "visit new_visitor ?d2 = Inr (new_visitor\<lparr>v_functions := [?f2]\<rparr>)"
    by (simp add: visit.simps visit_Decl_def startswith_def new_visitor_def)
  from void_parameter_collapse [OF p2 run2] obtain g
    where g: "v_functions (new_visitor\<lparr>v_functions := [?f2]\<rparr>) = v_functions new_visitor @ [g]"
      and other: "(\<nexists>p t. [Decl (Some ''a'') (TypeDecl (Some ''a'') [] (IdentifierType [''double''])),
                        Decl (Some ''b'') (PtrDecl [] (TypeDecl (Some ''b'') [] (IdentifierType [''char''])))] = [p] \<and>
                   attr_type p = Inr t \<and> bare_name t = Some ''void'') \<longrightarrow>
                 function_argtypes g = args_to_ctypes (fn_args g)"
    by (elim exE conjE)
  from g have "g = ?f2"
    by (simp add: new_visitor_def)
  with other have "function_argtypes ?f2 = args_to_ctypes (fn_args ?f2)"
    by simp
  then have a2: "function_argtypes ?f2 = Inr [''ctypes.c_double'', StringPointer]"
    by (simp add: type_to_ctypes.simps c_type_name.simps startswith_def)
  show ?thesis
    apply (intro conjI)
         apply (rule p1, rule run1, rule a1, rule p2, rule run2, rule a2)
    done
qed


text \<open>
  C7.  The return type registered for a function is the translated return type,
  replaced by the result-checking adapter \<^verbatim>\<open>_check_rascal_status_t\<close> exactly when
  the translation is the status type \<^verbatim>\<open>rascal_status_t\<close>, which is exactly when
  the C return type is the bare type of that name; no translation is the
  adapter's name, so the adapter marks these functions and no others.
\<close>

theorem status_return_wrapping:
  "function_restype f =
     map_sum id (\<lambda>r. if r = ''rascal_status_t'' then ''_check_rascal_status_t'' else r)
       (type_to_ctypes (fn_restype f) False) \<and>
   (function_restype f = Inr ''_check_rascal_status_t'' \<longleftrightarrow>
      type_to_ctypes (fn_restype f) False = Inr ''rascal_status_t'') \<and>
   (type_to_ctypes (fn_restype f) False = Inr ''rascal_status_t'' \<longleftrightarrow>
      bare_name (fn_restype f) = Some ''rascal_status_t'')"
proof (intro conjI)
  show "function_restype f =
     map_sum id (\<lambda>r. if r = ''rascal_status_t'' then ''_check_rascal_status_t'' else r)
       (type_to_ctypes (fn_restype f) False)"
    by (simp add: function_restype_def split: sum.splits)
  show "function_restype f = Inr ''_check_rascal_status_t'' \<longleftrightarrow>
      type_to_ctypes (fn_restype f) False = Inr ''rascal_status_t''"
    using never_translates_to_check [of "fn_restype f" False]
    by (auto simp: function_restype_def split: sum.splits if_splits)
  show "type_to_ctypes (fn_restype f) False = Inr ''rascal_status_t'' \<longleftrightarrow>
      bare_name (fn_restype f) = Some ''rascal_status_t''"
    by (rule translates_to_status)
qed

section \<open>Properties of the AST Collector\<close>


lemma attr_value_Constant: "is_Constant e \<Longrightarrow> \<exists>l. attr_value e = Inr l"
  by (cases e rule: is_Constant.cases) auto







text \<open>What one top-level declaration adds to each collection, and what a walk adds.\<close>

lemma dict_set_key_order: "map fst (dict_set k v xs) = add_key k (map fst xs)"
  by (induction xs) (auto simp: add_key_def)

lemma set_fold_add_key: "set (fold add_key ns ks) = set ks \<union> set ns"
  by (induction ns arbitrary: ks) (auto simp: add_key_def)

lemma visit_unprefixed:
  assumes "named_declaration d" and "\<not> primary_prefix d"
  shows "visit v d = Inr v"
  using assms
  by (cases d rule: named_declaration.cases)
     (simp_all add: primary_prefix_def visit.simps visit_Decl_def)

lemma visit_Decl_result:
  assumes "visit_Decl v (Decl (Some name) t) = Inr v'" and "startswith name ''rascal_''"
  shows "\<exists>f. v' = v\<lparr>v_functions := v_functions v @ [f]\<rparr> \<and> fn_name f = name"
  using assms by (auto simp: visit_Decl_def split: sum.splits)

lemma visit_Typedef_result:
  assumes h: "visit_Typedef v (Typedef name t) = Inr v'" and p: "startswith name ''rascal_''"
  shows "(is_enum_typedef (Typedef name t) \<and>
           (\<exists>vals. v' = v\<lparr>v_enums := v_enums v @ [\<lparr>en_name = name, en_values = vals\<rparr>]\<rparr>)) \<or>
         (is_struct_typedef (Typedef name t) \<and>
           (\<exists>ms. v' = v\<lparr>v_structs := v_structs v @ [\<lparr>st_name = name, st_members = ms\<rparr>]\<rparr>)) \<or>
         (is_alias_typedef (Typedef name t) \<and>
           (\<exists>inner. v' = v\<lparr>v_types := dict_set name inner (v_types v)\<rparr>))"
proof -
  from h p obtain inner where inner: "attr_type t = Inr inner"
    by (auto split: sum.splits)
  show ?thesis
  proof (cases inner)
    case (Enum n vs)
    with h p inner show ?thesis
      by (auto split: option.splits sum.splits)
  next
    case (Struct n ds)
    with h p inner show ?thesis
      by (auto split: sum.splits)
  qed (use h p inner in \<open>auto\<close>)
qed

lemma visit_step:
  assumes n: "named_declaration d" and h: "visit v d = Inr v'"
  shows "name_lists v' =
     (map fn_name (v_functions v) @ names_of is_function_decl [d],
      map en_name (v_enums v) @ names_of is_enum_typedef [d],
      map st_name (v_structs v) @ names_of is_struct_typedef [d],
      fold add_key (names_of is_alias_typedef [d]) (map fst (v_types v)))"
proof (cases "primary_prefix d")
  case False
  with n h visit_unprefixed [OF n False, of v] show ?thesis
    by (simp add: names_of_def name_lists_def)
next
  case True
  from n show ?thesis
  proof (cases d rule: named_declaration.cases)
    case (1 name t)
    with h have "visit_Decl v (Decl (Some name) t) = Inr v'"
      by (simp add: visit.simps)
    from visit_Decl_result [OF this] True 1 obtain f
      where "v' = v\<lparr>v_functions := v_functions v @ [f]\<rparr>" "fn_name f = name"
      by (auto simp: primary_prefix_def)
    with True 1 show ?thesis
      by (simp add: names_of_def name_lists_def)
  next
    case (2 name t)
    with h have "visit_Typedef v (Typedef name t) = Inr v'"
      by (simp add: visit.simps)
    from visit_Typedef_result [OF this] True 2
    have "(is_enum_typedef d \<and>
           (\<exists>vals. v' = v\<lparr>v_enums := v_enums v @ [\<lparr>en_name = name, en_values = vals\<rparr>]\<rparr>)) \<or>
         (is_struct_typedef d \<and>
           (\<exists>ms. v' = v\<lparr>v_structs := v_structs v @ [\<lparr>st_name = name, st_members = ms\<rparr>]\<rparr>)) \<or>
         (is_alias_typedef d \<and>
           (\<exists>inner. v' = v\<lparr>v_types := dict_set name inner (v_types v)\<rparr>))"
      by (simp add: primary_prefix_def)
    then show ?thesis
    proof (elim disjE conjE exE)
      fix vals
      assume "is_enum_typedef d"
        "v' = v\<lparr>v_enums := v_enums v @ [\<lparr>en_name = name, en_values = vals\<rparr>]\<rparr>"
      with True 2 show ?thesis
        by (simp add: names_of_def name_lists_def split: sum.splits node.splits)
    next
      fix ms
      assume "is_struct_typedef d"
        "v' = v\<lparr>v_structs := v_structs v @ [\<lparr>st_name = name, st_members = ms\<rparr>]\<rparr>"
      with True 2 show ?thesis
        by (simp add: names_of_def name_lists_def split: sum.splits node.splits)
    next
      fix inner
      assume "is_alias_typedef d"
        "v' = v\<lparr>v_types := dict_set name inner (v_types v)\<rparr>"
      with True 2 show ?thesis
        by (simp add: names_of_def name_lists_def dict_set_key_order)
    qed
  qed simp_all
qed


lemma names_of_Cons: "names_of kind (d # ext) = names_of kind [d] @ names_of kind ext"
  by (simp add: names_of_def)

lemma generic_visit_names:
  assumes "list_all named_declaration ext" and "generic_visit v ext = Inr v'"
  shows "name_lists v' =
     (map fn_name (v_functions v) @ names_of is_function_decl ext,
      map en_name (v_enums v) @ names_of is_enum_typedef ext,
      map st_name (v_structs v) @ names_of is_struct_typedef ext,
      fold add_key (names_of is_alias_typedef ext) (map fst (v_types v)))"
  using assms
proof (induction ext arbitrary: v)
  case Nil
  then show ?case by (simp add: names_of_def name_lists_def)
next
  case (Cons d ext)
  from Cons.prems obtain v1 where v1: "visit v d = Inr v1" and rest: "generic_visit v1 ext = Inr v'"
    by (auto split: sum.splits)
  from Cons.prems have d: "named_declaration d" and ext: "list_all named_declaration ext"
    by simp_all
  from visit_step [OF d v1] Cons.IH [OF ext rest] show ?case
    by (simp add: name_lists_def names_of_Cons [of _ d ext])
qed

lemma generic_visit_filter:
  "list_all named_declaration ext \<Longrightarrow>
   generic_visit v ext = generic_visit v (filter primary_prefix ext)"
proof (induction ext arbitrary: v)
  case Nil
  then show ?case by simp
next
  case (Cons d ext)
  then have d: "named_declaration d" and ext: "list_all named_declaration ext"
    by simp_all
  show ?case
  proof (cases "primary_prefix d")
    case True
    with Cons.IH [OF ext] show ?thesis
      by (simp split: sum.splits)
  next
    case False
    with visit_unprefixed [OF d False, of v] Cons.IH [OF ext, of v] show ?thesis
      by simp
  qed
qed

lemma declaration_kinds:
  "named_declaration d \<Longrightarrow>
   is_function_decl d \<or> is_enum_typedef d \<or> is_struct_typedef d \<or> is_alias_typedef d"
  by (cases d rule: named_declaration.cases) auto

lemma names_of_member:
  "n \<in> set (names_of kind ext) \<longleftrightarrow>
     (\<exists>d \<in> set ext. kind d \<and> primary_prefix d \<and> declared_name d = n)"
  by (auto simp: names_of_def)

text \<open>
  C2, as the code has it.  Take a tree whose top-level nodes are named
  declarations and typedefs.  The walk over the tree gives the same result as
  the walk over the tree with every declaration removed whose name does not start
  with the primary prefix \<^verbatim>\<open>rascal_\<close>: those are skipped silently, whatever other
  prefix they carry.  When the walk succeeds, the functions, enums and structs
  collected are, in source order, exactly the top-level function declarations,
  enum typedefs and struct typedefs whose name starts with \<^verbatim>\<open>rascal_\<close>, added
  behind what the visitor held before; the alias names are the remaining prefixed
  typedefs in order of first appearance; and a top-level declaration's name is
  among the collected names if and only if it starts with \<^verbatim>\<open>rascal_\<close> (or was
  collected before the walk).
\<close>

theorem tree_collects_primary_prefix:
  assumes "list_all named_declaration ext"
  shows "visit v (FileAST ext) = visit v (FileAST (filter primary_prefix ext)) \<and>
     (\<forall>v'. visit v (FileAST ext) = Inr v' \<longrightarrow>
        map fn_name (v_functions v') =
          map fn_name (v_functions v) @ names_of is_function_decl ext \<and>
        map en_name (v_enums v') =
          map en_name (v_enums v) @ names_of is_enum_typedef ext \<and>
        map st_name (v_structs v') =
          map st_name (v_structs v) @ names_of is_struct_typedef ext \<and>
        map fst (v_types v') =
          fold add_key (names_of is_alias_typedef ext) (map fst (v_types v)) \<and>
        (\<forall>d \<in> set ext. declared_name d \<in> set (collected_names v') \<longleftrightarrow>
           primary_prefix d \<or> declared_name d \<in> set (collected_names v)))"
proof (intro conjI allI impI)
  show "visit v (FileAST ext) = visit v (FileAST (filter primary_prefix ext))"
    using generic_visit_filter [OF assms] by (simp add: visit.simps)
next
  fix v'
  assume "visit v (FileAST ext) = Inr v'"
  then have gv: "generic_visit v ext = Inr v'"
    by (simp add: visit.simps)
  note lists = generic_visit_names [OF assms gv, unfolded name_lists_def prod.inject]
  from lists show "map fn_name (v_functions v') =
          map fn_name (v_functions v) @ names_of is_function_decl ext"
    by blast
  from lists show "map en_name (v_enums v') =
          map en_name (v_enums v) @ names_of is_enum_typedef ext"
    by blast
  from lists show "map st_name (v_structs v') =
          map st_name (v_structs v) @ names_of is_struct_typedef ext"
    by blast
  from lists show "map fst (v_types v') =
          fold add_key (names_of is_alias_typedef ext) (map fst (v_types v))"
    by blast
  have all: "set (collected_names v') = set (collected_names v) \<union>
      (set (names_of is_function_decl ext) \<union> set (names_of is_enum_typedef ext) \<union>
       set (names_of is_struct_typedef ext) \<union> set (names_of is_alias_typedef ext))"
  proof -
    have "set (collected_names v') =
        set (map fn_name (v_functions v')) \<union> set (map en_name (v_enums v')) \<union>
        set (map st_name (v_structs v')) \<union> set (map fst (v_types v'))"
      by (simp add: collected_names_def Un_assoc)
    also have "\<dots> = set (map fn_name (v_functions v) @ names_of is_function_decl ext) \<union>
        set (map en_name (v_enums v) @ names_of is_enum_typedef ext) \<union>
        set (map st_name (v_structs v) @ names_of is_struct_typedef ext) \<union>
        set (fold add_key (names_of is_alias_typedef ext) (map fst (v_types v)))"
      using lists by presburger
    also have "\<dots> = set (collected_names v) \<union>
      (set (names_of is_function_decl ext) \<union> set (names_of is_enum_typedef ext) \<union>
       set (names_of is_struct_typedef ext) \<union> set (names_of is_alias_typedef ext))"
      by (simp add: collected_names_def set_fold_add_key Un_ac)
    finally show ?thesis .
  qed
  show "\<forall>d \<in> set ext. declared_name d \<in> set (collected_names v') \<longleftrightarrow>
           primary_prefix d \<or> declared_name d \<in> set (collected_names v)"
  proof
    fix d assume d: "d \<in> set ext"
    with assms have nd: "named_declaration d"
      by (simp add: list_all_iff)
    show "declared_name d \<in> set (collected_names v') \<longleftrightarrow>
           primary_prefix d \<or> declared_name d \<in> set (collected_names v)"
    proof
      assume "declared_name d \<in> set (collected_names v')"
      with all have "declared_name d \<in> set (collected_names v) \<or>
          (\<exists>kind. declared_name d \<in> set (names_of kind ext))"
        by blast
      then show "primary_prefix d \<or> declared_name d \<in> set (collected_names v)"
        by (auto simp: names_of_member primary_prefix_def)
    next
      assume "primary_prefix d \<or> declared_name d \<in> set (collected_names v)"
      then show "declared_name d \<in> set (collected_names v')"
      proof
        assume p: "primary_prefix d"
        from declaration_kinds [OF nd] d p
        have "declared_name d \<in> set (names_of is_function_decl ext) \<or>
              declared_name d \<in> set (names_of is_enum_typedef ext) \<or>
              declared_name d \<in> set (names_of is_struct_typedef ext) \<or>
              declared_name d \<in> set (names_of is_alias_typedef ext)"
          unfolding names_of_member by blast
        with all show ?thesis by blast
      next
        assume "declared_name d \<in> set (collected_names v)"
        with all show ?thesis by blast
      qed
    qed
  qed
qed

theorem tree_collects_primary_prefix_witness:
  "list_all named_declaration
     [Typedef ''eqs_labels_t'' (TypeDecl (Some ''eqs_labels_t'') [] (Struct (Some ''eqs_labels_t'') None)),
      Decl (Some ''rascal_last_error'')
        (FuncDecl (Some [Typename None (TypeDecl None [] (IdentifierType [''void'']))])
           (PtrDecl [] (TypeDecl (Some ''rascal_last_error'') [] (IdentifierType [''char''])))),
      Decl (Some ''eqs_labels_free'')
        (FuncDecl (Some [Decl (Some ''labels'') (TypeDecl (Some ''labels'') [] (IdentifierType [''eqs_labels_t'']))])
           (TypeDecl (Some ''eqs_labels_free'') [] (IdentifierType [''eqs_status_t'']))),
      Typedef ''rascal_calculator_t'' (TypeDecl (Some ''rascal_calculator_t'') []
        (Struct (Some ''rascal_calculator_t'') None)),
      Decl (Some ''rascal_calculator_free'')
        (FuncDecl (Some [Decl (Some ''calculator'') (PtrDecl [] (TypeDecl (Some ''calculator'') []
             (IdentifierType [''rascal_calculator_t''])))])
           (TypeDecl (Some ''rascal_calculator_free'') [] (IdentifierType [''rascal_status_t''])))] \<and>
   (\<exists>v'. visit new_visitor (FileAST
     [Typedef ''eqs_labels_t'' (TypeDecl (Some ''eqs_labels_t'') [] (Struct (Some ''eqs_labels_t'') None)),
      Decl (Some ''rascal_last_error'')
        (FuncDecl (Some [Typename None (TypeDecl None [] (IdentifierType [''void'']))])
           (PtrDecl [] (TypeDecl (Some ''rascal_last_error'') [] (IdentifierType [''char''])))),
      Decl (Some ''eqs_labels_free'')
        (FuncDecl (Some [Decl (Some ''labels'') (TypeDecl (Some ''labels'') [] (IdentifierType [''eqs_labels_t'']))])
           (TypeDecl (Some ''eqs_labels_free'') [] (IdentifierType [''eqs_status_t'']))),
      Typedef ''rascal_calculator_t'' (TypeDecl (Some ''rascal_calculator_t'') []
        (Struct (Some ''rascal_calculator_t'') None)),
      Decl (Some ''rascal_calculator_free'')
        (FuncDecl (Some [Decl (Some ''calculator'') (PtrDecl [] (TypeDecl (Some ''calculator'') []
             (IdentifierType [''rascal_calculator_t''])))])
           (TypeDecl (Some ''rascal_calculator_free'') [] (IdentifierType [''rascal_status_t''])))])
       = Inr v' \<and>
      map fn_name (v_functions v') = [''rascal_last_error'', ''rascal_calculator_free''] \<and>
      map en_name (v_enums v') = [] \<and>
      map st_name (v_structs v') = [''rascal_calculator_t''] \<and>
      map fst (v_types v') = [])"
proof -
  let ?ext = "[Typedef ''eqs_labels_t'' (TypeDecl (Some ''eqs_labels_t'') [] (Struct (Some ''eqs_labels_t'') None)),
      Decl (Some ''rascal_last_error'')
        (FuncDecl (Some [Typename None (TypeDecl None [] (IdentifierType [''void'']))])
           (PtrDecl [] (TypeDecl (Some ''rascal_last_error'') [] (IdentifierType [''char''])))),
      Decl (Some ''eqs_labels_free'')
        (FuncDecl (Some [Decl (Some ''labels'') (TypeDecl (Some ''labels'') [] (IdentifierType [''eqs_labels_t'']))])
           (TypeDecl (Some ''eqs_labels_free'') [] (IdentifierType [''eqs_status_t'']))),
      Typedef ''rascal_calculator_t'' (TypeDecl (Some ''rascal_calculator_t'') []
        (Struct (Some ''rascal_calculator_t'') None)),
      Decl (Some ''rascal_calculator_free'')
        (FuncDecl (Some [Decl (Some ''calculator'') (PtrDecl [] (TypeDecl (Some ''calculator'') []
             (IdentifierType [''rascal_calculator_t''])))])
           (TypeDecl (Some ''rascal_calculator_free'') [] (IdentifierType [''rascal_status_t''])))]"
  have named: "list_all named_declaration ?ext"
    by simp
  have "\<exists>v'. visit new_visitor (FileAST ?ext) = Inr v'"
    by (simp add: visit.simps visit_Decl_def startswith_def new_visitor_def)
  then obtain v' where run: "visit new_visitor (FileAST ?ext) = Inr v'"
    by blast
  note facts = tree_collects_primary_prefix [OF named, THEN conjunct2, rule_format, OF run]
  have a: "map fn_name (v_functions v') = [''rascal_last_error'', ''rascal_calculator_free'']"
    using facts [THEN conjunct1]
    by (simp add: names_of_def primary_prefix_def startswith_def new_visitor_def)
  have b: "map en_name (v_enums v') = []"
    using facts [THEN conjunct2, THEN conjunct1]
    by (simp add: names_of_def primary_prefix_def startswith_def new_visitor_def)
  have c: "map st_name (v_structs v') = [''rascal_calculator_t'']"
    using facts [THEN conjunct2, THEN conjunct2, THEN conjunct1]
    by (simp add: names_of_def primary_prefix_def startswith_def new_visitor_def)
  have d: "map fst (v_types v') = []"
    using facts [THEN conjunct2, THEN conjunct2, THEN conjunct2, THEN conjunct1]
    by (simp add: names_of_def primary_prefix_def startswith_def new_visitor_def)
  show ?thesis
    apply (rule conjI, rule named)
    apply (rule exI [where x = v'])
    apply (intro conjI)
        apply (rule run, rule a, rule b, rule c, rule d)
    done
qed


text \<open>
  C2, as stated, fails: a function declaration whose name carries the dependency
  library's prefix \<^verbatim>\<open>eqs_\<close> is not collected.
\<close>

theorem dependency_prefix_counterexample:
  "startswith ''eqs_labels_free'' ''eqs_'' \<and>
   parse (FileAST [Decl (Some ''eqs_labels_free'')
       (FuncDecl (Some [Decl (Some ''labels'') (PtrDecl [] (TypeDecl (Some ''labels'') []
            (IdentifierType [''eqs_labels_t''])))])
          (TypeDecl (Some ''eqs_labels_free'') [] (IdentifierType [''eqs_status_t''])))]) []
     = Inr new_visitor"
  by (simp add: startswith_def parse_def visit.simps visit_Decl_def)

section \<open>Totality of the Type Translator\<close>

text \<open>Translation succeeds on a named type, bare or behind one or two pointers.\<close>

lemma has_name_ok:
  "has_name t \<Longrightarrow> \<exists>n. typedecl_name t = Inr (Some n)"
  by (auto simp: has_name_def split: sum.splits option.splits)

lemma not_has_name:
  "\<not> has_name t \<Longrightarrow> typedecl_name t = Inr None \<or> (\<exists>e. typedecl_name t = Inl e)"
  by (auto simp: has_name_def split: sum.splits option.splits)

lemma ok_TypeDecl:
  "(\<exists>s. type_to_ctypes (TypeDecl d q i) nd = Inr s) = has_name (TypeDecl d q i)"
proof (cases "has_name (TypeDecl d q i)")
  case True
  then obtain n where "typedecl_name (TypeDecl d q i) = Inr (Some n)"
    using has_name_ok by blast
  with True c_type_name_Some [of n] show ?thesis
    by (subst type_to_ctypes.simps) auto
next
  case False
  with not_has_name [OF False] show ?thesis
    by (subst type_to_ctypes.simps) auto
qed

lemma ok_ptr_TypeDecl:
  "(\<exists>s. type_to_ctypes (PtrDecl q (TypeDecl d q1 i)) nd = Inr s) = has_name (TypeDecl d q1 i)"
proof (cases "has_name (TypeDecl d q1 i)")
  case True
  then obtain n where "typedecl_name (TypeDecl d q1 i) = Inr (Some n)"
    using has_name_ok by blast
  with True c_type_name_Some [of n] show ?thesis
    by (subst type_to_ctypes.simps) auto
next
  case False
  with not_has_name [OF False] show ?thesis
    by (subst type_to_ctypes.simps) auto
qed

lemma ok_ptr_ptr_TypeDecl:
  "(\<exists>s. type_to_ctypes (PtrDecl q (PtrDecl q1 (TypeDecl d q2 i))) nd = Inr s) =
     has_name (TypeDecl d q2 i)"
proof (cases "has_name (TypeDecl d q2 i)")
  case True
  then obtain n where "typedecl_name (TypeDecl d q2 i) = Inr (Some n)"
    using has_name_ok by blast
  with True c_type_name_Some [of n] show ?thesis
    by (subst type_to_ctypes.simps) auto
next
  case False
  with not_has_name [OF False] show ?thesis
    by (subst type_to_ctypes.simps) auto
qed

lemma ok_iff_supported:
  "(\<exists>s. type_to_ctypes t nd = Inr s) = supported t"
  "(\<exists>s. funcdecl_to_ctypes t nd = Inr s) = supported_funcdecl t"
  "(\<exists>ss. params_to_ctypes ts nd = Inr ss) = supported_params ts"
proof (induction t nd and t nd and ts nd
    rule: type_to_ctypes_funcdecl_to_ctypes_params_to_ctypes.induct)
  case (1 type ndpointer)
  show ?case
  proof (cases type)
    case (PtrDecl q t1)
    show ?thesis
    proof (cases t1)
      case inner: (PtrDecl q1 t2)
      show ?thesis
      proof (cases t2)
        case (TypeDecl d2 q2 i2)
        with PtrDecl inner ok_ptr_ptr_TypeDecl show ?thesis
          by (simp add: supported.simps)
      qed (use PtrDecl inner in \<open>simp_all add: supported.simps type_to_ctypes.simps\<close>)
    next
      case (TypeDecl d1 q1 i1)
      with PtrDecl ok_ptr_TypeDecl show ?thesis
        by (simp add: supported.simps)
    next
      case (FuncDecl a1 r1)
      with PtrDecl "1.IH"(1) [OF PtrDecl FuncDecl] show ?thesis
        by (simp add: supported.simps type_to_ctypes.simps)
    qed (use PtrDecl in \<open>simp_all add: supported.simps type_to_ctypes.simps\<close>)
  next
    case (TypeDecl d q i)
    with ok_TypeDecl show ?thesis
      by (simp add: supported.simps)
  next
    case (ArrayDecl elem dim)
    show ?thesis
    proof (cases "is_Constant dim")
      case True
      then obtain l where l: "attr_value dim = Inr l"
        using attr_value_Constant by blast
      from "1.IH"(2) [OF ArrayDecl True l] ArrayDecl True l show ?thesis
        by (subst type_to_ctypes.simps, subst supported.simps) (auto split: sum.splits)
    next
      case False
      with ArrayDecl show ?thesis
        by (simp add: supported.simps type_to_ctypes.simps)
    qed
  next
    case (FuncDecl a r)
    with "1.IH"(3) [OF FuncDecl] show ?thesis
      by (simp add: supported.simps type_to_ctypes.simps)
  next
    case (IdentifierType names)
    then show ?thesis
      using c_type_name_Some
      by (cases names) (simp_all add: supported.simps type_to_ctypes.simps)
  qed (simp_all add: supported.simps type_to_ctypes.simps)
next
  case (2 type ndpointer)
  show ?case
  proof (cases type)
    case (FuncDecl a r)
    show ?thesis
    proof (cases a)
      case None
      with FuncDecl show ?thesis
        by (simp add: funcdecl_to_ctypes.simps supported_funcdecl.simps split: sum.splits)
    next
      case (Some ps)
      have rt: "attr_type type = Inr r" using FuncDecl by simp
      have ps: "attr_args_params type = Inr ps" using FuncDecl Some by simp
      show ?thesis
      proof (cases "type_to_ctypes r ndpointer")
        case (Inl e)
        with "2.IH"(1) [OF rt] FuncDecl Some show ?thesis
          by (simp add: funcdecl_to_ctypes.simps supported_funcdecl.simps)
      next
        case (Inr restype)
        with "2.IH"(1) [OF rt] "2.IH"(2) [OF rt Inr ps] FuncDecl Some show ?thesis
          by (auto simp: funcdecl_to_ctypes.simps supported_funcdecl.simps split: sum.splits)
      qed
    qed
  qed (auto simp: funcdecl_to_ctypes.simps supported_funcdecl.simps split: sum.splits)
next
  case (3 ndpointer)
  then show ?case by simp
next
  case (4 t ts ndpointer)
  show ?case
  proof (cases "attr_type t")
    case (Inl e)
    then show ?thesis by simp
  next
    case ty: (Inr ty)
    show ?thesis
    proof (cases "type_to_ctypes ty ndpointer")
      case (Inl e)
      with "4.IH"(1) [OF ty] ty show ?thesis by auto
    next
      case (Inr s)
      with "4.IH"(1) [OF ty] "4.IH"(2) [OF ty Inr] ty show ?thesis
        by (auto split: sum.splits)
    qed
  qed
qed

text \<open>
  C3, as the code has it.  The translator is total: on every type expression, in
  every context, it returns a descriptor or stops with an error.  It returns a
  descriptor exactly on the supported shape grammar and stops with an error on
  every other expression, so no type is approximated.  A pointer chain deeper
  than two levels stops with the unsupported-type error.  (Which error stops the
  other unsupported expressions is not fixed: see the counterexample.)
\<close>

theorem type_translation_total:
  "((\<exists>s. type_to_ctypes t ndpointer = Inr s) \<longleftrightarrow> supported t) \<and>
   (\<not> supported t \<longrightarrow> (\<exists>e. type_to_ctypes t ndpointer = Inl e)) \<and>
   type_to_ctypes (PtrDecl q (PtrDecl q1 (PtrDecl q2 t'))) ndpointer =
     Inl (Exception ''Unknown type'')"
proof (intro conjI impI)
  show "(\<exists>s. type_to_ctypes t ndpointer = Inr s) \<longleftrightarrow> supported t"
    by (rule ok_iff_supported(1))
next
  assume "\<not> supported t"
  then have "\<nexists>s. type_to_ctypes t ndpointer = Inr s"
    by (simp add: ok_iff_supported(1))
  then show "\<exists>e. type_to_ctypes t ndpointer = Inl e"
    by (cases "type_to_ctypes t ndpointer") auto
next
  show "type_to_ctypes (PtrDecl q (PtrDecl q1 (PtrDecl q2 t'))) ndpointer =
     Inl (Exception ''Unknown type'')"
    by (simp add: type_to_ctypes.simps)
qed

theorem type_translation_total_witness:
  "supported (PtrDecl [] (FuncDecl
       (Some [Decl (Some ''values'') (PtrDecl [] (PtrDecl []
          (TypeDecl (Some ''values'') [] (IdentifierType [''double'']))))])
       (TypeDecl None [] (IdentifierType [''void''])))) \<and>
   (\<exists>s. type_to_ctypes (PtrDecl [] (FuncDecl
       (Some [Decl (Some ''values'') (PtrDecl [] (PtrDecl []
          (TypeDecl (Some ''values'') [] (IdentifierType [''double'']))))])
       (TypeDecl None [] (IdentifierType [''void''])))) True = Inr s) \<and>
   \<not> supported (ArrayDecl (TypeDecl (Some ''xs'') [] (IdentifierType [''double'']))
       (Some (BinaryOp ''*'' (ID ''n'') (Constant ''int'' ''2'')))) \<and>
   (\<exists>e. type_to_ctypes (ArrayDecl (TypeDecl (Some ''xs'') [] (IdentifierType [''double'']))
       (Some (BinaryOp ''*'' (ID ''n'') (Constant ''int'' ''2'')))) True = Inl e)"
proof -
  have yes: "supported (PtrDecl [] (FuncDecl
       (Some [Decl (Some ''values'') (PtrDecl [] (PtrDecl []
          (TypeDecl (Some ''values'') [] (IdentifierType [''double'']))))])
       (TypeDecl None [] (IdentifierType [''void'']))))"
    by (simp add: supported.simps supported_funcdecl.simps has_name_def)
  have no: "\<not> supported (ArrayDecl (TypeDecl (Some ''xs'') [] (IdentifierType [''double'']))
       (Some (BinaryOp ''*'' (ID ''n'') (Constant ''int'' ''2''))))"
    by (simp add: supported.simps)
  from yes type_translation_total [THEN conjunct1]
  have "\<exists>s. type_to_ctypes (PtrDecl [] (FuncDecl
       (Some [Decl (Some ''values'') (PtrDecl [] (PtrDecl []
          (TypeDecl (Some ''values'') [] (IdentifierType [''double'']))))])
       (TypeDecl None [] (IdentifierType [''void''])))) True = Inr s"
    by blast
  moreover from no type_translation_total [THEN conjunct2, THEN conjunct1]
  have "\<exists>e. type_to_ctypes (ArrayDecl (TypeDecl (Some ''xs'') [] (IdentifierType [''double'']))
       (Some (BinaryOp ''*'' (ID ''n'') (Constant ''int'' ''2'')))) True = Inl e"
    by blast
  ultimately show ?thesis
    using yes no by blast
qed

text \<open>
  C3, as stated, fails: a union stops the translator with an attribute error and
  a type name of several words with an assertion error, neither of which is the
  unsupported-type error.
\<close>

theorem other_failure_modes_counterexample:
  "type_to_ctypes (TypeDecl (Some ''u'') [] (Union (Some ''data'') None)) False
     = Inl AttributeError \<and>
   type_to_ctypes (TypeDecl (Some ''n'') [] (IdentifierType [''unsigned'', ''int''])) False
     = Inl AssertionError"
  by (simp add: type_to_ctypes.simps)

section \<open>Properties of the macro scan\<close>

text \<open>
  C1, as the code has it.  A line that does not contain \<^verbatim>\<open>#define\<close> is passed
  over.  A line that contains it is split at white space: when the second token
  is the include guard \<^verbatim>\<open>RASCALINE_H\<close> the line is passed over; otherwise, when
  there are at least three tokens, the second is stored as the name and the
  third as the value; otherwise the scan stops with an index error.
\<close>

theorem scan_defines_line:
  "scan_defines ds (line # rest) =
     (if contains ''#define'' line then
        (if 2 \<le> length (split line) \<and> split line ! 1 = ''RASCALINE_H''
           then scan_defines ds rest
         else if 3 \<le> length (split line)
           then scan_defines (dict_set (split line ! 1) (split line ! 2) ds) rest
         else Inl IndexError)
      else scan_defines ds rest)"
  by (simp split: list.splits)

text \<open>
  C1, as stated, fails: a \<^verbatim>\<open>#define\<close> line with a name and no value is not
  skipped, it stops the run.
\<close>

theorem define_without_value_counterexample:
  "parse (FileAST []) [''#define RASCAL_FLAG'' @ NL] = Inl IndexError"
  by (simp add: parse_def visit.simps new_visitor_def split_def isspace_def NL_def
      startswith_def)

end
